theory Spec2Isabelle
  imports Main "HOL-Library.AList"
begin

section \<open>Python values shared by the modules\<close>

text \<open>
  Strings are lists of characters; a character stands for one code point below 256.
  In that range the decimal digits of Python's \<open>\d\<close> and \<open>int()\<close> are exactly
  \<open>0\<close> .. \<open>9\<close>, and the characters removed by \<open>str.strip()\<close> are the code points
  9-13, 28-32, 133 and 160.  Python integers are unbounded, so version components are
  natural numbers; the interpreter's limit on the length of a decimal literal handed to
  \<open>int()\<close> is not modelled.
\<close>

definition isdigit :: "char \<Rightarrow> bool" where
  "isdigit c = (c \<in> set ''0123456789'')"

definition isspace :: "char \<Rightarrow> bool" where
  "isspace c = ((of_char c :: nat) \<in> set [9, 10, 11, 12, 13, 28, 29, 30, 31, 32, 133, 160])"

text \<open>\<open>s.strip()\<close>: leading and trailing whitespace removed.\<close>

definition strip :: "string \<Rightarrow> string" where
  "strip s = rev (dropWhile isspace (rev (dropWhile isspace s)))"

text \<open>\<open>int(ds)\<close> for a string of decimal digits (leading zeros allowed).\<close>

definition digit_val :: "char \<Rightarrow> nat" where
  "digit_val c = of_char c - 48"

definition int_of_digits :: "string \<Rightarrow> nat" where
  "int_of_digits ds = foldl (\<lambda>n c. 10 * n + digit_val c) 0 ds"

text \<open>\<open>str(n)\<close>, the rendering an f-string gives a non-negative integer.\<close>

definition digit_char :: "nat \<Rightarrow> char" where
  "digit_char d = char_of (48 + d)"

function str_of_nat :: "nat \<Rightarrow> string" where
  "str_of_nat n = (if n < 10 then [digit_char n] else str_of_nat (n div 10) @ [digit_char (n mod 10)])"
  by pat_completeness auto
termination
  by (relation "measure id") auto

declare str_of_nat.simps [simp del]

section \<open>VersionModel: \<open>parse_panos_version\<close>\<close>

text \<open>
  The dictionary returned by \<open>parse_panos_version\<close>.  Both
  \<open>filter_plugins/panos_filters.py\<close> and \<open>library/module_utils/panos_common.py\<close> define
  this function with the same text, so one definition stands for both.
\<close>

record parsed_version =
  major :: nat
  minor :: nat
  patch :: nat
  hotfix :: nat
  candidate :: nat
  raw :: string

text \<open>
  The pattern \<open>^(\d+)\.(\d+)\.(\d+)(?:-h(\d+))?(?:-c(\d+))?$\<close> is matched from the left.
  Every \<open>\d+\<close> is greedy and is followed by something that is not a digit, so the longest
  run of digits is the only split that can succeed.  \<open>take_digits\<close> is one \<open>(\d+)\<close>:
  the group and the rest, or no match on an empty run.
\<close>

definition take_digits :: "string \<Rightarrow> (string \<times> string) option" where
  "take_digits s =
     (let ds = takeWhile isdigit s
      in if ds = [] then None else Some (ds, dropWhile isdigit s))"

text \<open>A literal character of the pattern.\<close>

fun expect :: "char \<Rightarrow> string \<Rightarrow> string option" where
  "expect c [] = None"
| "expect c (x # xs) = (if x = c then Some xs else None)"

text \<open>
  \<open>(?:-h(\d+))?\<close> and \<open>(?:-c(\d+))?\<close>: the group when the suffix with the given letter
  is there, and otherwise the input untouched with the group unset.
\<close>

definition opt_suffix :: "char \<Rightarrow> string \<Rightarrow> string option \<times> string" where
  "opt_suffix letter s =
     (case expect (CHR ''-'') s of
        None \<Rightarrow> (None, s)
      | Some s1 \<Rightarrow>
          (case expect letter s1 of
             None \<Rightarrow> (None, s)
           | Some s2 \<Rightarrow>
               (case take_digits s2 of
                  None \<Rightarrow> (None, s)
                | Some (ds, s3) \<Rightarrow> (Some ds, s3))))"

text \<open>\<open>$\<close>: the end of the string, or the position before a final newline.\<close>

definition at_end :: "string \<Rightarrow> bool" where
  "at_end s = (s = [] \<or> s = [CHR 0x0A])"

text \<open>\<open>re.match(pattern, s)\<close>: the five groups, the last two optional.\<close>

definition match_version ::
  "string \<Rightarrow> (string \<times> string \<times> string \<times> string option \<times> string option) option" where
  "match_version s =
     (case take_digits s of
        None \<Rightarrow> None
      | Some (g1, r1) \<Rightarrow>
     (case expect (CHR ''.'') r1 of
        None \<Rightarrow> None
      | Some r2 \<Rightarrow>
     (case take_digits r2 of
        None \<Rightarrow> None
      | Some (g2, r3) \<Rightarrow>
     (case expect (CHR ''.'') r3 of
        None \<Rightarrow> None
      | Some r4 \<Rightarrow>
     (case take_digits r4 of
        None \<Rightarrow> None
      | Some (g3, r5) \<Rightarrow>
     (case opt_suffix (CHR ''h'') r5 of (g4, r6) \<Rightarrow>
     (case opt_suffix (CHR ''c'') r6 of (g5, r7) \<Rightarrow>
        if at_end r7 then Some (g1, g2, g3, g4, g5) else None)))))))"

definition parse_panos_version :: "string \<Rightarrow> parsed_version option" where
  "parse_panos_version version_string =
     (if version_string = [] then None
      else
        (case match_version (strip version_string) of
           None \<Rightarrow> None
         | Some (g1, g2, g3, g4, g5) \<Rightarrow>
             Some \<lparr> major = int_of_digits g1,
                    minor = int_of_digits g2,
                    patch = int_of_digits g3,
                    hotfix = (case g4 of Some ds \<Rightarrow> int_of_digits ds | None \<Rightarrow> 0),
                    candidate = (case g5 of Some ds \<Rightarrow> int_of_digits ds | None \<Rightarrow> 0),
                    raw = strip version_string \<rparr>))"

section \<open>VersionModel: comparison\<close>

datatype version_key = Major | Minor | Patch | Hotfix

fun vget :: "parsed_version \<Rightarrow> version_key \<Rightarrow> nat" where
  "vget v Major = major v"
| "vget v Minor = minor v"
| "vget v Patch = patch v"
| "vget v Hotfix = hotfix v"

text \<open>
  The loop \<open>for key in [...]\<close> shared by both comparators: the first key on which the
  versions differ decides, and running off the list gives 0.
\<close>

fun compare_keys :: "version_key list \<Rightarrow> parsed_version \<Rightarrow> parsed_version \<Rightarrow> int" where
  "compare_keys [] v1 v2 = 0"
| "compare_keys (key # keys) v1 v2 =
     (if vget v1 key < vget v2 key then - 1
      else if vget v1 key > vget v2 key then 1
      else compare_keys keys v1 v2)"

text \<open>\<open>panos_version_compare\<close> of the filter plugin: \<open>None\<close> on an unparseable input.\<close>

definition panos_version_compare :: "string \<Rightarrow> string \<Rightarrow> int option" where
  "panos_version_compare version1 version2 =
     (case (parse_panos_version version1, parse_panos_version version2) of
        (Some v1, Some v2) \<Rightarrow> Some (compare_keys [Major, Minor, Patch, Hotfix] v1 v2)
      | _ \<Rightarrow> None)"

definition panos_version_gte :: "string \<Rightarrow> string \<Rightarrow> bool" where
  "panos_version_gte version1 version2 =
     (case panos_version_compare version1 version2 of None \<Rightarrow> False | Some r \<Rightarrow> r \<ge> 0)"

definition panos_version_lte :: "string \<Rightarrow> string \<Rightarrow> bool" where
  "panos_version_lte version1 version2 =
     (case panos_version_compare version1 version2 of None \<Rightarrow> False | Some r \<Rightarrow> r \<le> 0)"

definition panos_version_gt :: "string \<Rightarrow> string \<Rightarrow> bool" where
  "panos_version_gt version1 version2 =
     (case panos_version_compare version1 version2 of None \<Rightarrow> False | Some r \<Rightarrow> r > 0)"

definition panos_version_lt :: "string \<Rightarrow> string \<Rightarrow> bool" where
  "panos_version_lt version1 version2 =
     (case panos_version_compare version1 version2 of None \<Rightarrow> False | Some r \<Rightarrow> r < 0)"

definition panos_version_eq :: "string \<Rightarrow> string \<Rightarrow> bool" where
  "panos_version_eq version1 version2 =
     (case panos_version_compare version1 version2 of None \<Rightarrow> False | Some r \<Rightarrow> r = 0)"

text \<open>\<open>panos_normalize_version\<close>: the input itself when it does not parse.\<close>

definition panos_normalize_version :: "string \<Rightarrow> string" where
  "panos_normalize_version version =
     (case parse_panos_version version of
        None \<Rightarrow> version
      | Some parsed \<Rightarrow>
          (let base = str_of_nat (major parsed) @ ''.'' @ str_of_nat (minor parsed) @ ''.''
                      @ str_of_nat (patch parsed)
           in if hotfix parsed > 0 then base @ ''-h'' @ str_of_nat (hotfix parsed) else base))"

section \<open>Errors\<close>

text \<open>
  \<open>PanosException\<close> with its \<open>error_code\<close> and the entries of \<open>details\<close> the functions
  below fill in (\<open>ClientError\<close> stands for the ones the API client raises);
  \<open>AttributeError\<close> is what Python raises for \<open>.get\<close> on a value that is not a
  dictionary, \<open>ValueError\<close> what \<open>time.sleep\<close> raises on a negative interval.
\<close>

datatype panos_error =
    InvalidVersion string string
  | XmlParseError string string
  | ClientError string
  | AttributeError
  | ValueError

text \<open>\<open>compare_versions\<close> of the common module: raises on an unparseable input.\<close>

definition compare_versions :: "string \<Rightarrow> string \<Rightarrow> panos_error + int" where
  "compare_versions version1 version2 =
     (case (parse_panos_version version1, parse_panos_version version2) of
        (Some v1, Some v2) \<Rightarrow> Inr (compare_keys [Major, Minor, Patch, Hotfix] v1 v2)
      | _ \<Rightarrow> Inl (InvalidVersion version1 version2))"

section \<open>VersionMatrixValidator: \<open>is_upgrade_path_valid\<close>\<close>

text \<open>
  One entry of the caller's matrix: a dictionary in which both keys are optional
  (\<open>.get('direct_upgrade_to', [])\<close>, \<open>.get('intermediate_required', {})\<close>).
\<close>

record matrix_entry =
  direct_upgrade_to :: "string list option"
  intermediate_required :: "(string \<rightharpoonup> string list) option"

type_synonym version_matrix = "string \<rightharpoonup> matrix_entry"

text \<open>The f-string \<open>f"{v['major']}.{v['minor']}"\<close>.\<close>

definition major_minor :: "parsed_version \<Rightarrow> string" where
  "major_minor v = str_of_nat (major v) @ ''.'' @ str_of_nat (minor v)"

text \<open>
  The function calls the raising comparator twice; an exception of either call leaves
  the function, so it is a branch of the model.
\<close>

text \<open>\<open>entry.get('direct_upgrade_to', [])\<close> and \<open>entry.get('intermediate_required', {})\<close>.\<close>

definition get_direct_upgrade_to :: "matrix_entry \<Rightarrow> string list" where
  "get_direct_upgrade_to entry = (case direct_upgrade_to entry of None \<Rightarrow> [] | Some ts \<Rightarrow> ts)"

definition get_intermediate_required :: "matrix_entry \<Rightarrow> (string \<rightharpoonup> string list)" where
  "get_intermediate_required entry =
     (case intermediate_required entry of None \<Rightarrow> Map.empty | Some im \<Rightarrow> im)"

definition is_upgrade_path_valid ::
  "string \<Rightarrow> string \<Rightarrow> version_matrix \<Rightarrow> panos_error + (bool \<times> string list)" where
  "is_upgrade_path_valid current_version target_version version_matrix =
     (case (parse_panos_version current_version, parse_panos_version target_version) of
        (Some current, Some target) \<Rightarrow>
          (case compare_versions current_version target_version of
             Inl e \<Rightarrow> Inl e
           | Inr same \<Rightarrow>
               if same = 0 then Inr (True, [])
               else
                 (case compare_versions current_version target_version of
                    Inl e \<Rightarrow> Inl e
                  | Inr down \<Rightarrow>
                      if down > 0 then Inr (False, [])
                      else
                        (let current_major_minor = major_minor current;
                             target_major_minor = major_minor target
                         in case version_matrix current_major_minor of
                              None \<Rightarrow> Inr (False, [])
                            | Some entry \<Rightarrow>
                                (let valid_targets = get_direct_upgrade_to entry
                                 in if target_major_minor \<in> set valid_targets then Inr (True, [])
                                    else
                                      (let intermediate = get_intermediate_required entry
                                       in case intermediate target_major_minor of
                                            Some steps \<Rightarrow> Inr (True, steps)
                                          | None \<Rightarrow> Inr (False, []))))))
      | _ \<Rightarrow> Inr (False, []))"

section \<open>XmlNormalizer\<close>

text \<open>
  An \<open>xml.etree\<close> element as far as the code reads it: tag, attributes, text and
  children (\<open>elem_text\<close> is the attribute \<open>text\<close>, \<open>None\<close> when the element has none).
\<close>

datatype xml = Element (tag: string) (attrib: "(string \<times> string) list")
  (elem_text: "string option") (children: "xml list")

text \<open>
  The values the normalizer builds.  A dictionary is an association list in insertion
  order with distinct keys, written to with \<open>AList.update\<close> (Python's \<open>d[k] = v\<close>:
  in place when the key is there, appended otherwise).
\<close>

datatype pyval = PNone | PStr string | PList "pyval list" | PDict "(string \<times> pyval) list"

text \<open>Truth value of a Python object, as \<open>if x\<close> and \<open>bool(x)\<close> take it.\<close>

fun truthy :: "pyval \<Rightarrow> bool" where
  "truthy PNone = False"
| "truthy (PStr s) = (s \<noteq> [])"
| "truthy (PList xs) = (xs \<noteq> [])"
| "truthy (PDict d) = (d \<noteq> [])"

text \<open>\<open>result.update(child_dict)\<close>.\<close>

definition dict_update :: "(string \<times> pyval) list \<Rightarrow> (string \<times> pyval) list \<Rightarrow> (string \<times> pyval) list" where
  "dict_update d other = foldl (\<lambda>acc (k, v). AList.update k v acc) d other"

text \<open>
  The body of \<open>for child in children\<close>, given the child's tag and its converted data.
\<close>

definition add_child :: "(string \<times> pyval) list \<Rightarrow> string \<Rightarrow> pyval \<Rightarrow> (string \<times> pyval) list" where
  "add_child child_dict child_tag child_data =
     (case map_of child_dict child_tag of
        Some existing \<Rightarrow>
          (case existing of
             PList items \<Rightarrow> AList.update child_tag (PList (items @ [child_data])) child_dict
           | _ \<Rightarrow> AList.update child_tag (PList [existing, child_data]) child_dict)
      | None \<Rightarrow> AList.update child_tag child_data child_dict)"

text \<open>\<open>element.text and element.text.strip()\<close>: the stripped text when it is not empty.\<close>

definition text_content :: "string option \<Rightarrow> string option" where
  "text_content t =
     (case t of
        None \<Rightarrow> None
      | Some s \<Rightarrow> if s \<noteq> [] \<and> strip s \<noteq> [] then Some (strip s) else None)"

fun xml_element_to_dict :: "xml \<Rightarrow> pyval" where
  "xml_element_to_dict (Element tg attrs txt cs) =
     (let result0 =
            (if attrs \<noteq> [] then [(''@attributes'', PDict (map (\<lambda>(k, v). (k, PStr v)) attrs))]
             else []);
          result1 =
            (if cs \<noteq> []
             then dict_update result0
                    (foldl (\<lambda>child_dict child.
                              add_child child_dict (tag child) (xml_element_to_dict child)) [] cs)
             else result0)
      in case text_content txt of
           Some t \<Rightarrow>
             if result1 \<noteq> [] then PDict (AList.update ''#text'' (PStr t) result1) else PStr t
         | None \<Rightarrow> if result1 \<noteq> [] then PDict result1 else PNone)"

declare xml_element_to_dict.simps [simp del]

text \<open>
  \<open>elem.find('.//t')\<close> and \<open>elem.findall('.//t')\<close> range over the descendants of the
  element, itself excluded, in document order.
\<close>

fun descendants :: "xml \<Rightarrow> xml list" where
  "descendants (Element tg attrs txt cs) = concat (map (\<lambda>c. c # descendants c) cs)"

definition findall :: "xml \<Rightarrow> string \<Rightarrow> xml list" where
  "findall e t = filter (\<lambda>d. tag d = t) (descendants e)"

definition find_first :: "xml \<Rightarrow> string \<Rightarrow> xml option" where
  "find_first e t = (case findall e t of [] \<Rightarrow> None | d # _ \<Rightarrow> Some d)"

text \<open>\<open>sep.join(parts)\<close>.\<close>

fun join :: "string \<Rightarrow> string list \<Rightarrow> string" where
  "join sep [] = []"
| "join sep [p] = p"
| "join sep (p # q # ps) = p @ sep @ join sep (q # ps)"

text \<open>The dictionary \<open>parse_xml_response\<close> returns.\<close>

record response =
  status :: string
  code :: "string option"
  success :: bool
  data :: pyval
  message :: "string option"

text \<open>The texts \<open>line.text for line in lines if line.text\<close>.\<close>

definition line_texts :: "xml list \<Rightarrow> string list" where
  "line_texts lines =
     concat (map (\<lambda>line. case elem_text line of
                            Some lt \<Rightarrow> if lt \<noteq> [] then [lt] else []
                          | None \<Rightarrow> []) lines)"

text \<open>The block under \<open># Extract message if present\<close>.\<close>

definition extract_message :: "xml \<Rightarrow> string option" where
  "extract_message root =
     (case find_first root ''msg'' of
        None \<Rightarrow> None
      | Some msg_elem \<Rightarrow>
          if (case elem_text msg_elem of Some t \<Rightarrow> t \<noteq> [] | None \<Rightarrow> False)
          then elem_text msg_elem
          else (let lines = findall msg_elem ''line''
                in if lines \<noteq> [] then Some (join [CHR 0x0A] (line_texts lines)) else None))"

text \<open>
  The XML parser \<open>ET.fromstring\<close> belongs to the standard library, so it is a parameter:
  \<open>Inl\<close> carries the text of the \<open>ParseError\<close> it raises on input that is not
  well-formed, \<open>Inr\<close> the root element.
\<close>

definition parse_xml_response ::
  "(string \<Rightarrow> string + xml) \<Rightarrow> string \<Rightarrow> panos_error + response" where
  "parse_xml_response fromstring xml_string =
     (case fromstring xml_string of
        Inl e \<Rightarrow>
          Inl (XmlParseError (''Failed to parse XML response: '' @ e) (take 500 xml_string))
      | Inr root \<Rightarrow>
          (let st = (case map_of (attrib root) ''status'' of Some v \<Rightarrow> v | None \<Rightarrow> ''unknown'')
           in Inr \<lparr> status = st,
                    code = map_of (attrib root) ''code'',
                    success = (st = ''success''),
                    data = (case find_first root ''result'' of
                              Some result_elem \<Rightarrow> xml_element_to_dict result_elem
                            | None \<Rightarrow> PDict []),
                    message = extract_message root \<rparr>))"

section \<open>HaStateExtractor\<close>

text \<open>
  \<open>x.get(key, default)\<close>: defined on dictionaries only; on any other value Python raises
  \<open>AttributeError\<close>.
\<close>

definition dict_get :: "(string \<times> pyval) list \<Rightarrow> string \<Rightarrow> pyval \<Rightarrow> pyval" where
  "dict_get d key dflt = (case map_of d key of Some v \<Rightarrow> v | None \<Rightarrow> dflt)"

fun py_get :: "pyval \<Rightarrow> string \<Rightarrow> pyval \<Rightarrow> panos_error + pyval" where
  "py_get (PDict d) key dflt = Inr (dict_get d key dflt)"
| "py_get _ key dflt = Inl AttributeError"

record ha_info =
  ha_enabled :: bool
  ha_mode :: pyval
  ha_state :: pyval
  ha_peer_state :: pyval
  ha_running_sync :: pyval
  ha_running_sync_enabled :: pyval
  ha_preemptive :: pyval
  ha_priority :: pyval
  ha_peer_address :: pyval
  ha_raw :: pyval

text \<open>Sequencing of calls that may raise.\<close>

definition bind_err :: "'e + 'a \<Rightarrow> ('a \<Rightarrow> 'e + 'b) \<Rightarrow> 'e + 'b" where
  "bind_err m f = (case m of Inl e \<Rightarrow> Inl e | Inr x \<Rightarrow> f x)"

definition extract_ha_info :: "response \<Rightarrow> panos_error + ha_info" where
  "extract_ha_info ha_response =
     bind_err (py_get (data ha_response) ''group'' (PDict [])) (\<lambda>group.
     bind_err (py_get group ''local-info'' (PDict [])) (\<lambda>local_info.
     bind_err (py_get group ''peer-info'' (PDict [])) (\<lambda>peer_info.
     bind_err (py_get local_info ''mode'' (PStr ''standalone'')) (\<lambda>mode.
     bind_err (py_get local_info ''state'' (PStr ''unknown'')) (\<lambda>state.
     bind_err (py_get peer_info ''state'' (PStr ''unknown'')) (\<lambda>peer_state.
     bind_err (py_get local_info ''running-sync'' (PStr ''unknown'')) (\<lambda>running_sync.
     bind_err (py_get local_info ''running-sync-enabled'' (PStr ''no'')) (\<lambda>running_sync_enabled.
     bind_err (py_get local_info ''preemptive'' (PStr ''no'')) (\<lambda>preemptive.
     bind_err (py_get local_info ''priority'' (PStr ''0'')) (\<lambda>priority.
     bind_err (py_get peer_info ''mgmt-ip'' (PStr [])) (\<lambda>peer_address.
       Inr \<lparr> ha_enabled = truthy group,
              ha_mode = mode,
              ha_state = state,
              ha_peer_state = peer_state,
              ha_running_sync = running_sync,
              ha_running_sync_enabled = running_sync_enabled,
              ha_preemptive = preemptive,
              ha_priority = priority,
              ha_peer_address = peer_address,
              ha_raw = data ha_response \<rparr>)))))))))))"

section \<open>JobPoller: \<open>wait_for_job\<close>\<close>

text \<open>
  The world of one call: \<open>clock i\<close> is what the \<open>i\<close>-th call of \<open>time.time()\<close> returns
  (\<open>clock 0\<close> is \<open>start_time\<close>, \<open>clock (Suc k)\<close> the reading of iteration \<open>k\<close>), and
  \<open>get_job_status k\<close> is what the client's \<open>k\<close>-th poll returns or raises.  Time is any
  type with subtraction and an order.  \<open>time.sleep\<close> only lets the clock advance, and it
  raises \<open>ValueError\<close> on a negative interval.  The optional logger only appends to its
  own list and is left out.
\<close>

text \<open>
  What leaves \<open>wait_for_job\<close> as an exception: its own \<open>PanosException\<close> with code
  \<open>JOB_TIMEOUT\<close>, carrying \<open>job_id\<close> and \<open>elapsed\<close>, or whatever a call inside raised.
\<close>

datatype 't job_error = JobTimeout string 't | Raised panos_error

record 't job_outcome =
  job_success :: bool
  job_result :: pyval
  job_details :: pyval
  job_elapsed :: 't

text \<open>
  Lines 291-294: the job record of a response with its \<open>status\<close>, \<open>result\<close> and
  \<open>progress\<close> entries, each with its default.
\<close>

definition job_fields :: "response \<Rightarrow> panos_error + (pyval \<times> pyval \<times> pyval \<times> pyval)" where
  "job_fields resp =
     bind_err (py_get (data resp) ''job'' (PDict [])) (\<lambda>st.
     bind_err (py_get st ''status'' (PStr ''UNKNOWN'')) (\<lambda>job_status.
     bind_err (py_get st ''result'' (PStr ''UNKNOWN'')) (\<lambda>job_res.
     bind_err (py_get st ''progress'' (PStr ''0'')) (\<lambda>progress.
       Inr (st, job_status, job_res, progress)))))"

partial_function (option) wait_loop ::
  "(nat \<Rightarrow> 't::{minus,ord,zero}) \<Rightarrow> (nat \<Rightarrow> panos_error + response) \<Rightarrow> string \<Rightarrow> 't \<Rightarrow> 't
     \<Rightarrow> 't \<Rightarrow> nat \<Rightarrow> ('t job_error + 't job_outcome) option" where
  "wait_loop clock get_job_status job_id timeout poll_interval start_time k =
     (if clock (Suc k) - start_time > timeout
      then Some (Inl (JobTimeout job_id (clock (Suc k) - start_time)))
      else
        (case get_job_status k of
           Inl e \<Rightarrow> Some (Inl (Raised e))
         | Inr resp \<Rightarrow>
             (case job_fields resp of
                Inl e \<Rightarrow> Some (Inl (Raised e))
              | Inr (st, job_status, job_res, progress) \<Rightarrow>
                  if job_status = PStr ''FIN''
                  then Some (Inr \<lparr> job_success = (job_res = PStr ''OK''),
                                   job_result = job_res,
                                   job_details = st,
                                   job_elapsed = clock (Suc k) - start_time \<rparr>)
                  else if poll_interval < 0 then Some (Inl (Raised ValueError))
                  else wait_loop clock get_job_status job_id timeout poll_interval start_time
                         (Suc k))))"

definition wait_for_job ::
  "(nat \<Rightarrow> 't::{minus,ord,zero}) \<Rightarrow> (nat \<Rightarrow> panos_error + response) \<Rightarrow> string \<Rightarrow> 't \<Rightarrow> 't
     \<Rightarrow> ('t job_error + 't job_outcome) option" where
  "wait_for_job clock get_job_status job_id timeout poll_interval =
     wait_loop clock get_job_status job_id timeout poll_interval (clock 0) 0"

section \<open>Properties of the version model\<close>

lemma compare_keys_flip: "compare_keys ks v2 v1 = - compare_keys ks v1 v2"
  by (induction ks) auto

lemma compare_keys_same:
  "(\<And>k. k \<in> set ks \<Longrightarrow> vget v1 k = vget v2 k) \<Longrightarrow> compare_keys ks v1 v2 = 0"
  by (induction ks) auto

lemma compare_keys_range: "compare_keys ks v1 v2 \<in> {- 1, 0, 1}"
  by (induction ks) auto

lemma panos_version_compare_parsed:
  "parse_panos_version a = Some va \<Longrightarrow> parse_panos_version b = Some vb \<Longrightarrow>
   panos_version_compare a b = Some (compare_keys [Major, Minor, Patch, Hotfix] va vb)"
  by (simp add: panos_version_compare_def)

lemma compare_versions_parsed:
  "parse_panos_version a = Some va \<Longrightarrow> parse_panos_version b = Some vb \<Longrightarrow>
   compare_versions a b = Inr (compare_keys [Major, Minor, Patch, Hotfix] va vb)"
  by (simp add: compare_versions_def)

lemma panos_version_compare_unparsed:
  "parse_panos_version a = None \<or> parse_panos_version b = None \<Longrightarrow>
   panos_version_compare a b = None"
  by (auto simp: panos_version_compare_def split: option.splits)

text \<open>
  Claim C4.  For version strings \<open>a\<close> and \<open>b\<close> that both parse, the two comparators
  (the one of the filter plugin, which returns \<open>None\<close> on bad input, and the raising one
  of the common module) return a result \<open>r\<close> among \<open>-1\<close>, \<open>0\<close>, \<open>1\<close> for \<open>(a, b)\<close> and
  \<open>-r\<close> for \<open>(b, a)\<close>, and comparing \<open>a\<close> with itself gives \<open>0\<close>.
\<close>

theorem version_compare_antisymmetric:
  assumes "parse_panos_version a = Some va" and "parse_panos_version b = Some vb"
  shows "(\<exists>r. r \<in> {- 1, 0, 1}
            \<and> panos_version_compare a b = Some r \<and> panos_version_compare b a = Some (- r)
            \<and> compare_versions a b = Inr r \<and> compare_versions b a = Inr (- r))
         \<and> panos_version_compare a a = Some 0 \<and> compare_versions a a = Inr 0"
proof -
  let ?r = "compare_keys [Major, Minor, Patch, Hotfix] va vb"
  have flip: "compare_keys [Major, Minor, Patch, Hotfix] vb va = - ?r"
    by (rule compare_keys_flip)
  have "?r \<in> {- 1, 0, 1}"
    by (rule compare_keys_range)
  moreover have "panos_version_compare a b = Some ?r" "compare_versions a b = Inr ?r"
    using assms by (simp_all add: panos_version_compare_parsed compare_versions_parsed)
  moreover have "panos_version_compare b a = Some (- ?r)" "compare_versions b a = Inr (- ?r)"
    using assms flip by (simp_all add: panos_version_compare_parsed compare_versions_parsed)
  moreover have "compare_keys [Major, Minor, Patch, Hotfix] va va = 0"
    by (rule compare_keys_same) simp
  then have "panos_version_compare a a = Some 0" "compare_versions a a = Inr 0"
    using assms(1) by (simp_all add: panos_version_compare_parsed compare_versions_parsed)
  ultimately show ?thesis by blast
qed

theorem version_compare_antisymmetric_witness:
  "parse_panos_version ''10.1.5'' \<noteq> None \<and> parse_panos_version ''10.2.0-h3'' \<noteq> None
   \<and> panos_version_compare ''10.1.5'' ''10.2.0-h3'' = Some (- 1)
   \<and> panos_version_compare ''10.2.0-h3'' ''10.1.5'' = Some 1
   \<and> compare_versions ''10.2.0-h3'' ''10.1.5'' = Inr 1
   \<and> panos_version_compare ''10.1.5'' ''10.1.5'' = Some 0"
proof -
  have pa: "parse_panos_version ''10.1.5''
      = Some \<lparr>major = 10, minor = 1, patch = 5, hotfix = 0, candidate = 0, raw = ''10.1.5''\<rparr>"
    by code_simp
  have pb: "parse_panos_version ''10.2.0-h3''
      = Some \<lparr>major = 10, minor = 2, patch = 0, hotfix = 3, candidate = 0, raw = ''10.2.0-h3''\<rparr>"
    by code_simp
  have ab: "panos_version_compare ''10.1.5'' ''10.2.0-h3'' = Some (- 1)"
    by code_simp
  from version_compare_antisymmetric [OF pa pb]
  obtain r where r: "panos_version_compare ''10.1.5'' ''10.2.0-h3'' = Some r"
      "panos_version_compare ''10.2.0-h3'' ''10.1.5'' = Some (- r)"
      "compare_versions ''10.2.0-h3'' ''10.1.5'' = Inr (- r)"
      "panos_version_compare ''10.1.5'' ''10.1.5'' = Some 0"
    by blast
  from r(1) ab have "r = - 1" by simp
  with r pa pb show ?thesis by simp
qed

text \<open>
  Claim C5.  The result of a comparison is decided by the first of \<open>major\<close>, \<open>minor\<close>,
  \<open>patch\<close>, \<open>hotfix\<close> on which the parsed versions differ, and \<open>candidate\<close> takes no
  part: two versions that agree on these four components compare as equal, whatever
  their candidate numbers are.
\<close>

theorem candidate_excluded_from_ordering:
  assumes "parse_panos_version a = Some va" and "parse_panos_version b = Some vb"
  shows "(\<exists>r. panos_version_compare a b = Some r \<and> compare_versions a b = Inr r
            \<and> r = (if major va \<noteq> major vb then (if major va < major vb then - 1 else 1)
                    else if minor va \<noteq> minor vb then (if minor va < minor vb then - 1 else 1)
                    else if patch va \<noteq> patch vb then (if patch va < patch vb then - 1 else 1)
                    else if hotfix va \<noteq> hotfix vb then (if hotfix va < hotfix vb then - 1 else 1)
                    else 0))
         \<and> (major va = major vb \<and> minor va = minor vb \<and> patch va = patch vb
              \<and> hotfix va = hotfix vb
             \<longrightarrow> panos_version_compare a b = Some 0 \<and> compare_versions a b = Inr 0)"
  using assms
  by (auto simp: panos_version_compare_parsed compare_versions_parsed)

theorem candidate_excluded_from_ordering_witness:
  "parse_panos_version ''10.2.9-c1''
     = Some \<lparr>major = 10, minor = 2, patch = 9, hotfix = 0, candidate = 1, raw = ''10.2.9-c1''\<rparr>
   \<and> parse_panos_version ''10.2.9-c2''
     = Some \<lparr>major = 10, minor = 2, patch = 9, hotfix = 0, candidate = 2, raw = ''10.2.9-c2''\<rparr>
   \<and> panos_version_compare ''10.2.9-c1'' ''10.2.9-c2'' = Some 0
   \<and> compare_versions ''10.2.9-c1'' ''10.2.9-c2'' = Inr 0"
proof -
  have pa: "parse_panos_version ''10.2.9-c1''
      = Some \<lparr>major = 10, minor = 2, patch = 9, hotfix = 0, candidate = 1, raw = ''10.2.9-c1''\<rparr>"
    by code_simp
  have pb: "parse_panos_version ''10.2.9-c2''
      = Some \<lparr>major = 10, minor = 2, patch = 9, hotfix = 0, candidate = 2, raw = ''10.2.9-c2''\<rparr>"
    by code_simp
  have "panos_version_compare ''10.2.9-c1'' ''10.2.9-c2'' = Some 0
      \<and> compare_versions ''10.2.9-c1'' ''10.2.9-c2'' = Inr 0"
    by (rule mp [OF conjunct2 [OF candidate_excluded_from_ordering [OF pa pb]]]) simp
  with pa pb show ?thesis by simp
qed

text \<open>
  Claim C6.  When one of the two strings does not parse, each of the predicates
  \<open>gte\<close>, \<open>lte\<close>, \<open>gt\<close>, \<open>lt\<close> and \<open>eq\<close> is false (they are total functions into the
  booleans, so none raises), and \<open>gte v v\<close> holds for every \<open>v\<close> that parses.
\<close>

theorem predicates_fail_closed:
  "(parse_panos_version a = None \<or> parse_panos_version b = None \<longrightarrow>
      \<not> panos_version_gte a b \<and> \<not> panos_version_lte a b \<and> \<not> panos_version_gt a b
      \<and> \<not> panos_version_lt a b \<and> \<not> panos_version_eq a b)
   \<and> (parse_panos_version v \<noteq> None \<longrightarrow> panos_version_gte v v)"
proof -
  have "panos_version_compare a b = None"
    if "parse_panos_version a = None \<or> parse_panos_version b = None"
    using that by (rule panos_version_compare_unparsed)
  moreover have "panos_version_compare v v = Some 0" if "parse_panos_version v \<noteq> None"
  proof -
    from that obtain pv where pv: "parse_panos_version v = Some pv" by blast
    have "compare_keys [Major, Minor, Patch, Hotfix] pv pv = 0"
      by (rule compare_keys_same) simp
    with pv show ?thesis by (simp add: panos_version_compare_parsed)
  qed
  ultimately show ?thesis
    by (simp add: panos_version_gte_def panos_version_lte_def panos_version_gt_def
        panos_version_lt_def panos_version_eq_def)
qed

theorem predicates_fail_closed_witness:
  "parse_panos_version ''bad'' = None \<and> \<not> panos_version_gte ''bad'' ''10.1.0''
   \<and> \<not> panos_version_lte ''bad'' ''10.1.0'' \<and> \<not> panos_version_eq ''bad'' ''bad''
   \<and> parse_panos_version ''10.1.5'' \<noteq> None \<and> panos_version_gte ''10.1.5'' ''10.1.5''"
proof -
  have bad: "parse_panos_version ''bad'' = None"
    by code_simp
  have good: "parse_panos_version ''10.1.5'' \<noteq> None"
    by code_simp
  from bad predicates_fail_closed [of "''bad''" "''10.1.0''" "''10.1.5''"]
  have "\<not> panos_version_gte ''bad'' ''10.1.0''" "\<not> panos_version_lte ''bad'' ''10.1.0''"
    by simp_all
  moreover from bad predicates_fail_closed [of "''bad''" "''bad''" "''10.1.5''"]
  have "\<not> panos_version_eq ''bad'' ''bad''"
    by simp
  moreover from good predicates_fail_closed [of "''bad''" "''10.1.0''" "''10.1.5''"]
  have "panos_version_gte ''10.1.5'' ''10.1.5''"
    by simp
  ultimately show ?thesis using bad good by simp
qed

text \<open>
  Claim C9.  \<open>panos_normalize_version\<close> returns its input unchanged when the input does
  not parse; otherwise it returns \<open>major.minor.patch\<close> when the parsed hotfix is 0 and
  \<open>major.minor.patch-h{hotfix}\<close> when it is positive.  The witness evaluates it on
  \<open>10.2.9\<close> and on \<open>10.2.9-h1\<close>.
\<close>

theorem normalize_version_cases:
  "(parse_panos_version v = None \<longrightarrow> panos_normalize_version v = v)
   \<and> (\<forall>p. parse_panos_version v = Some p \<and> hotfix p = 0 \<longrightarrow>
          panos_normalize_version v
            = str_of_nat (major p) @ ''.'' @ str_of_nat (minor p) @ ''.'' @ str_of_nat (patch p))
   \<and> (\<forall>p. parse_panos_version v = Some p \<and> hotfix p > 0 \<longrightarrow>
          panos_normalize_version v
            = str_of_nat (major p) @ ''.'' @ str_of_nat (minor p) @ ''.'' @ str_of_nat (patch p)
              @ ''-h'' @ str_of_nat (hotfix p))"
  by (simp add: panos_normalize_version_def Let_def)

theorem normalize_version_cases_witness:
  "parse_panos_version ''bad'' = None \<and> panos_normalize_version ''bad'' = ''bad''
   \<and> panos_normalize_version ''10.2.9'' = ''10.2.9''
   \<and> panos_normalize_version ''10.2.9-h1'' = ''10.2.9-h1''"
proof -
  have bad: "parse_panos_version ''bad'' = None"
    by code_simp
  have p0: "parse_panos_version ''10.2.9''
      = Some \<lparr>major = 10, minor = 2, patch = 9, hotfix = 0, candidate = 0, raw = ''10.2.9''\<rparr>"
    by code_simp
  have p1: "parse_panos_version ''10.2.9-h1''
      = Some \<lparr>major = 10, minor = 2, patch = 9, hotfix = 1, candidate = 0, raw = ''10.2.9-h1''\<rparr>"
    by code_simp
  have s: "str_of_nat 10 = ''10''" "str_of_nat 2 = ''2''" "str_of_nat 9 = ''9''"
      "str_of_nat 1 = ''1''"
    by code_simp+
  from bad normalize_version_cases [of "''bad''"]
  have "panos_normalize_version ''bad'' = ''bad''"
    by simp
  moreover from p0 s normalize_version_cases [of "''10.2.9''"]
  have "panos_normalize_version ''10.2.9'' = ''10.2.9''"
    by simp
  moreover from p1 s normalize_version_cases [of "''10.2.9-h1''"]
  have "panos_normalize_version ''10.2.9-h1'' = ''10.2.9-h1''"
    by simp
  ultimately show ?thesis using bad by simp
qed

section \<open>Properties of the upgrade-path validator\<close>

lemma is_upgrade_path_valid_unparsed:
  "parse_panos_version c = None \<or> parse_panos_version t = None \<Longrightarrow>
   is_upgrade_path_valid c t m = Inr (False, [])"
  by (auto simp: is_upgrade_path_valid_def split: option.splits)

lemma is_upgrade_path_valid_parsed:
  assumes "parse_panos_version c = Some vc" and "parse_panos_version t = Some vt"
  shows "is_upgrade_path_valid c t m =
     (let r = compare_keys [Major, Minor, Patch, Hotfix] vc vt
      in if r = 0 then Inr (True, [])
         else if r > 0 then Inr (False, [])
         else (case m (major_minor vc) of
                 None \<Rightarrow> Inr (False, [])
               | Some entry \<Rightarrow>
                   if major_minor vt \<in> set (get_direct_upgrade_to entry) then Inr (True, [])
                   else (case get_intermediate_required entry (major_minor vt) of
                           Some steps \<Rightarrow> Inr (True, steps)
                         | None \<Rightarrow> Inr (False, []))))"
proof -
  have "compare_versions c t
      = Inr (compare_keys [Major, Minor, Patch, Hotfix] vc vt)"
    using assms by (rule compare_versions_parsed)
  with assms show ?thesis
    by (simp add: is_upgrade_path_valid_def Let_def del: compare_keys.simps
        split: option.splits)
qed

text \<open>
  Claim C10.  \<open>is_upgrade_path_valid\<close> returns a pair of a boolean and a list on every
  input: no exception of the raising comparator, \<open>INVALID_VERSION\<close> included, leaves it,
  because the comparator is only reached after both strings have parsed.
\<close>

theorem is_upgrade_path_valid_total:
  "(\<exists>valid steps. is_upgrade_path_valid c t m = Inr (valid, steps))
   \<and> (\<forall>e. is_upgrade_path_valid c t m \<noteq> Inl e)"
proof (cases "parse_panos_version c = None \<or> parse_panos_version t = None")
  case True
  then show ?thesis by (auto simp add: is_upgrade_path_valid_unparsed)
next
  case False
  then obtain vc vt where "parse_panos_version c = Some vc" "parse_panos_version t = Some vt"
    by auto
  then show ?thesis
    by (auto simp add: is_upgrade_path_valid_parsed Let_def simp del: compare_keys.simps
        split: option.splits)
qed

text \<open>
  Claim C1.  The result of \<open>is_upgrade_path_valid\<close>, case by case in the order of the
  function: \<open>(False, [])\<close> when a string does not parse; \<open>(True, [])\<close> when the versions
  compare equal; \<open>(False, [])\<close> when the current one is greater, whatever the matrix holds;
  otherwise \<open>(True, [])\<close> when the target's \<open>major.minor\<close> is among the direct targets of
  the entry for the current \<open>major.minor\<close>, else \<open>(True, steps)\<close> when it is a key of the
  entry's intermediate map, bound to \<open>steps\<close>, and \<open>(False, [])\<close> in every case left,
  the one of a current \<open>major.minor\<close> without entry included.
\<close>

theorem is_upgrade_path_valid_cases:
  "(parse_panos_version c = None \<or> parse_panos_version t = None \<longrightarrow>
      is_upgrade_path_valid c t m = Inr (False, []))
   \<and> (compare_versions c t = Inr 0 \<longrightarrow>
        is_upgrade_path_valid c t m = Inr (True, []))
   \<and> (compare_versions c t = Inr 1 \<longrightarrow>
        is_upgrade_path_valid c t m = Inr (False, []))
   \<and> (parse_panos_version c = Some vc \<and> parse_panos_version t = Some vt
        \<and> compare_versions c t = Inr (- 1) \<longrightarrow>
        (m (major_minor vc) = None \<longrightarrow> is_upgrade_path_valid c t m = Inr (False, []))
        \<and> (\<forall>entry. m (major_minor vc) = Some entry \<longrightarrow>
             (major_minor vt \<in> set (get_direct_upgrade_to entry) \<longrightarrow>
                is_upgrade_path_valid c t m = Inr (True, []))
             \<and> (major_minor vt \<notin> set (get_direct_upgrade_to entry) \<longrightarrow>
                  (\<forall>steps. get_intermediate_required entry (major_minor vt) = Some steps \<longrightarrow>
                     is_upgrade_path_valid c t m = Inr (True, steps))
                  \<and> (get_intermediate_required entry (major_minor vt) = None \<longrightarrow>
                       is_upgrade_path_valid c t m = Inr (False, [])))))"
proof (cases "parse_panos_version c = None \<or> parse_panos_version t = None")
  case True
  then have "compare_versions c t = Inl (InvalidVersion c t)"
    by (auto simp: compare_versions_def split: option.splits)
  with True show ?thesis by (auto simp add: is_upgrade_path_valid_unparsed)
next
  case False
  then obtain pc pt where p: "parse_panos_version c = Some pc" "parse_panos_version t = Some pt"
    by auto
  then show ?thesis
    by (auto simp add: is_upgrade_path_valid_parsed compare_versions_parsed Let_def
        simp del: compare_keys.simps)
qed

theorem is_upgrade_path_valid_cases_witness:
  "is_upgrade_path_valid ''bad'' ''10.1.0''
      [''10.1'' \<mapsto> \<lparr>direct_upgrade_to = Some [''10.2''],
                    intermediate_required = Some [''11.0'' \<mapsto> [''10.2'']]\<rparr>]
     = Inr (False, [])
   \<and> is_upgrade_path_valid ''10.1.0'' ''10.1.0'' Map.empty = Inr (True, [])
   \<and> is_upgrade_path_valid ''11.0.0'' ''10.0.0''
      [''10.1'' \<mapsto> \<lparr>direct_upgrade_to = Some [''10.2''],
                    intermediate_required = Some [''11.0'' \<mapsto> [''10.2'']]\<rparr>]
     = Inr (False, [])
   \<and> is_upgrade_path_valid ''10.1.0'' ''10.2.5''
      [''10.1'' \<mapsto> \<lparr>direct_upgrade_to = Some [''10.2''],
                    intermediate_required = Some [''11.0'' \<mapsto> [''10.2'']]\<rparr>]
     = Inr (True, [])
   \<and> is_upgrade_path_valid ''10.1.0'' ''11.0.0''
      [''10.1'' \<mapsto> \<lparr>direct_upgrade_to = Some [''10.2''],
                    intermediate_required = Some [''11.0'' \<mapsto> [''10.2'']]\<rparr>]
     = Inr (True, [''10.2''])
   \<and> is_upgrade_path_valid ''10.1.0'' ''12.0.0''
      [''10.1'' \<mapsto> \<lparr>direct_upgrade_to = Some [''10.2''],
                    intermediate_required = Some [''11.0'' \<mapsto> [''10.2'']]\<rparr>]
     = Inr (False, [])
   \<and> is_upgrade_path_valid ''9.1.0'' ''10.1.0''
      [''10.1'' \<mapsto> \<lparr>direct_upgrade_to = Some [''10.2''],
                    intermediate_required = Some [''11.0'' \<mapsto> [''10.2'']]\<rparr>]
     = Inr (False, [])"
  (is "?bad \<and> ?same \<and> ?down \<and> ?direct \<and> ?inter \<and> ?none \<and> ?absent")
proof -
  let ?entry = "\<lparr>direct_upgrade_to = Some [''10.2''],
                 intermediate_required = Some [''11.0'' \<mapsto> [''10.2'']]\<rparr>"
  let ?m = "[''10.1'' \<mapsto> ?entry]"
  let ?v = "\<lambda>a b c s. \<lparr>major = a, minor = b, patch = c, hotfix = 0, candidate = 0, raw = s\<rparr>"
  have p: "parse_panos_version ''bad'' = None"
      "parse_panos_version ''10.1.0'' = Some (?v 10 1 0 ''10.1.0'')"
      "parse_panos_version ''10.2.5'' = Some (?v 10 2 5 ''10.2.5'')"
      "parse_panos_version ''11.0.0'' = Some (?v 11 0 0 ''11.0.0'')"
      "parse_panos_version ''12.0.0'' = Some (?v 12 0 0 ''12.0.0'')"
      "parse_panos_version ''9.1.0'' = Some (?v 9 1 0 ''9.1.0'')"
    by code_simp+
  have cmp: "compare_versions ''10.1.0'' ''10.1.0'' = Inr 0"
      "compare_versions ''11.0.0'' ''10.0.0'' = Inr 1"
      "compare_versions ''10.1.0'' ''10.2.5'' = Inr (- 1)"
      "compare_versions ''10.1.0'' ''11.0.0'' = Inr (- 1)"
      "compare_versions ''10.1.0'' ''12.0.0'' = Inr (- 1)"
      "compare_versions ''9.1.0'' ''10.1.0'' = Inr (- 1)"
    by code_simp+
  have mm: "major_minor (?v 10 1 0 ''10.1.0'') = ''10.1''"
      "major_minor (?v 10 2 5 ''10.2.5'') = ''10.2''"
      "major_minor (?v 11 0 0 ''11.0.0'') = ''11.0''"
      "major_minor (?v 12 0 0 ''12.0.0'') = ''12.0''"
      "major_minor (?v 9 1 0 ''9.1.0'') = ''9.1''"
    by code_simp+
  have entry: "get_direct_upgrade_to ?entry = [''10.2'']"
      "get_intermediate_required ?entry = [''11.0'' \<mapsto> [''10.2'']]"
    by (simp_all add: get_direct_upgrade_to_def get_intermediate_required_def)
  have ?bad
    using p(1) is_upgrade_path_valid_cases [where c = "''bad''" and t = "''10.1.0''" and m = ?m]
    by simp
  moreover have ?same
    using cmp(1) is_upgrade_path_valid_cases [where c = "''10.1.0''" and t = "''10.1.0''"
        and m = Map.empty]
    by simp
  moreover have ?down
    using cmp(2) is_upgrade_path_valid_cases [where c = "''11.0.0''" and t = "''10.0.0''"
        and m = ?m]
    by simp
  moreover have ?direct
    using p cmp(3) mm entry
      is_upgrade_path_valid_cases [where c = "''10.1.0''" and t = "''10.2.5''" and m = ?m
        and vc = "?v 10 1 0 ''10.1.0''" and vt = "?v 10 2 5 ''10.2.5''"]
    by simp
  moreover have ?inter
    using p cmp(4) mm entry
      is_upgrade_path_valid_cases [where c = "''10.1.0''" and t = "''11.0.0''" and m = ?m
        and vc = "?v 10 1 0 ''10.1.0''" and vt = "?v 11 0 0 ''11.0.0''"]
    by simp
  moreover have ?none
    using p cmp(5) mm entry
      is_upgrade_path_valid_cases [where c = "''10.1.0''" and t = "''12.0.0''" and m = ?m
        and vc = "?v 10 1 0 ''10.1.0''" and vt = "?v 12 0 0 ''12.0.0''"]
    by simp
  moreover have ?absent
    using p cmp(6) mm entry
      is_upgrade_path_valid_cases [where c = "''9.1.0''" and t = "''10.1.0''" and m = ?m
        and vc = "?v 9 1 0 ''9.1.0''" and vt = "?v 10 1 0 ''10.1.0''"]
    by simp
  ultimately show ?thesis by blast
qed

section \<open>Properties of the XML normalizer\<close>

lemma map_of_dict_update:
  "distinct (map fst other) \<Longrightarrow> map_of (dict_update d other) = map_of d ++ map_of other"
proof (induction other arbitrary: d)
  case Nil
  then show ?case by (simp add: dict_update_def)
next
  case (Cons kv other)
  obtain k v where kv: "kv = (k, v)" by (cases kv)
  from Cons.prems kv have fresh: "map_of other k = None" and rest: "distinct (map fst other)"
    by (auto simp: map_of_eq_None_iff)
  have "map_of (dict_update d (kv # other)) = map_of (dict_update (AList.update k v d) other)"
    by (simp add: dict_update_def kv)
  also have "\<dots> = (map_of d)(k \<mapsto> v) ++ map_of other"
    using Cons.IH [OF rest, of "AList.update k v d"] by (simp only: update_conv')
  also have "\<dots> = map_of d ++ map_of (kv # other)"
    using fresh by (auto simp: kv map_add_def fun_eq_iff split: option.splits)
  finally show ?case .
qed

lemma map_of_add_child:
  "map_of (add_child cd k v) =
     (map_of cd)(k \<mapsto> (case map_of cd k of
                         None \<Rightarrow> v
                       | Some (PList items) \<Rightarrow> PList (items @ [v])
                       | Some existing \<Rightarrow> PList [existing, v]))"
  by (simp add: add_child_def update_conv' split: option.splits pyval.splits)

lemma distinct_add_child:
  "distinct (map fst cd) \<Longrightarrow> distinct (map fst (add_child cd k v))"
  by (simp add: add_child_def distinct_update split: option.splits pyval.splits)

lemma add_child_nonempty: "add_child cd k v \<noteq> []"
  by (simp add: add_child_def split: option.splits pyval.splits)

lemma distinct_children_loop:
  "distinct (map fst acc) \<Longrightarrow>
   distinct (map fst (foldl (\<lambda>cd child. add_child cd (tag child) (f child)) acc cs))"
  by (induction cs arbitrary: acc) (simp_all add: distinct_add_child)

lemma children_loop_nonempty:
  "cs \<noteq> [] \<or> acc \<noteq> [] \<Longrightarrow> foldl (\<lambda>cd child. add_child cd (tag child) (f child)) acc cs \<noteq> []"
  by (induction cs arbitrary: acc) (simp_all add: add_child_nonempty)

lemma children_loop_other:
  "\<forall>c \<in> set cs. tag c \<noteq> t \<Longrightarrow>
   map_of (foldl (\<lambda>cd child. add_child cd (tag child) (f child)) acc cs) t = map_of acc t"
  by (induction cs arbitrary: acc) (auto simp add: map_of_add_child)

lemma children_loop_list:
  "map_of acc t = Some (PList items) \<Longrightarrow>
   map_of (foldl (\<lambda>cd child. add_child cd (tag child) (f child)) acc cs) t
     = Some (PList (items @ map f (filter (\<lambda>c. tag c = t) cs)))"
  by (induction cs arbitrary: acc items) (simp_all add: map_of_add_child)

lemma children_loop_single:
  assumes "map_of acc t = Some v" and "\<And>items. v \<noteq> PList items"
    and "filter (\<lambda>c. tag c = t) cs \<noteq> []"
  shows "map_of (foldl (\<lambda>cd child. add_child cd (tag child) (f child)) acc cs) t
     = Some (PList (v # map f (filter (\<lambda>c. tag c = t) cs)))"
  using assms
proof (induction cs arbitrary: acc)
  case Nil
  then show ?case by simp
next
  case (Cons c cs)
  show ?case
  proof (cases "tag c = t")
    case True
    with Cons.prems(1,2) have "map_of (add_child acc (tag c) (f c)) t = Some (PList [v, f c])"
      by (cases v) (auto simp add: map_of_add_child)
    from children_loop_list [OF this] True show ?thesis by simp
  next
    case False
    with Cons.prems have "map_of (add_child acc (tag c) (f c)) t = Some v"
      and "filter (\<lambda>c. tag c = t) cs \<noteq> []"
      by (simp_all add: map_of_add_child)
    from Cons.IH [OF this(1) Cons.prems(2) this(2)] False show ?thesis by simp
  qed
qed

lemma children_loop_repeated:
  assumes "map_of acc t = None" and "\<And>c items. c \<in> set cs \<Longrightarrow> f c \<noteq> PList items"
    and "length (filter (\<lambda>c. tag c = t) cs) \<ge> 2"
  shows "map_of (foldl (\<lambda>cd child. add_child cd (tag child) (f child)) acc cs) t
     = Some (PList (map f (filter (\<lambda>c. tag c = t) cs)))"
  using assms
proof (induction cs arbitrary: acc)
  case Nil
  then show ?case by simp
next
  case (Cons c cs)
  show ?case
  proof (cases "tag c = t")
    case True
    with Cons.prems(1) have first: "map_of (add_child acc (tag c) (f c)) t = Some (f c)"
      by (simp add: map_of_add_child)
    have nolist: "\<And>items. f c \<noteq> PList items"
      using Cons.prems(2) by simp
    from Cons.prems(3) True have more: "filter (\<lambda>c. tag c = t) cs \<noteq> []"
      by auto
    from children_loop_single [OF first nolist more] True show ?thesis by simp
  next
    case False
    with Cons.prems have "map_of (add_child acc (tag c) (f c)) t = None"
      and "length (filter (\<lambda>c. tag c = t) cs) \<ge> 2"
      by (simp_all add: map_of_add_child)
    from Cons.IH [OF this(1) _ this(2)] Cons.prems(2) False show ?thesis by simp
  qed
qed

lemma xml_element_to_dict_not_list: "xml_element_to_dict e \<noteq> PList items"
  by (cases e) (simp add: xml_element_to_dict.simps Let_def split: option.splits)

text \<open>
  An entry of the dictionary assembled from attributes and children is an entry of the
  result, unless the text entry \<open>#text\<close> takes its key.
\<close>

lemma xml_element_to_dict_entry:
  assumes "map_of (if cs \<noteq> []
                   then dict_update
                          (if attrs \<noteq> []
                           then [(''@attributes'', PDict (map (\<lambda>(k, v). (k, PStr v)) attrs))]
                           else [])
                          (foldl (\<lambda>child_dict child.
                                    add_child child_dict (tag child) (xml_element_to_dict child))
                             [] cs)
                   else (if attrs \<noteq> []
                         then [(''@attributes'', PDict (map (\<lambda>(k, v). (k, PStr v)) attrs))]
                         else [])) key = Some v"
    and "key \<noteq> ''#text''"
  shows "\<exists>d. xml_element_to_dict (Element tg attrs txt cs) = PDict d \<and> map_of d key = Some v"
proof -
  define result1 where "result1 =
    (if cs \<noteq> []
     then dict_update
            (if attrs \<noteq> []
             then [(''@attributes'', PDict (map (\<lambda>(k, v). (k, PStr v)) attrs))]
             else [])
            (foldl (\<lambda>child_dict child.
                      add_child child_dict (tag child) (xml_element_to_dict child))
               [] cs)
     else (if attrs \<noteq> []
           then [(''@attributes'', PDict (map (\<lambda>(k, v). (k, PStr v)) attrs))]
           else []))"
  from assms(1) have entry: "map_of result1 key = Some v"
    by (simp only: result1_def)
  then have nonempty: "result1 \<noteq> []"
    by auto
  have unfolded: "xml_element_to_dict (Element tg attrs txt cs) =
      (case text_content txt of
         Some t \<Rightarrow> if result1 \<noteq> [] then PDict (AList.update ''#text'' (PStr t) result1) else PStr t
       | None \<Rightarrow> if result1 \<noteq> [] then PDict result1 else PNone)"
    by (simp only: xml_element_to_dict.simps Let_def result1_def)
  show ?thesis
  proof (cases "text_content txt")
    case None
    with unfolded nonempty entry show ?thesis by simp
  next
    case (Some t)
    with unfolded nonempty
    have "xml_element_to_dict (Element tg attrs txt cs)
        = PDict (AList.update ''#text'' (PStr t) result1)"
      by simp
    moreover have "map_of (AList.update ''#text'' (PStr t) result1) key = Some v"
      using entry assms(2) by (simp add: update_conv')
    ultimately show ?thesis by blast
  qed
qed

lemma xml_element_to_dict_attributes:
  assumes "attrs \<noteq> []" and "\<forall>c \<in> set cs. tag c \<noteq> ''@attributes''"
  shows "\<exists>d. xml_element_to_dict (Element tg attrs txt cs) = PDict d
           \<and> map_of d ''@attributes'' = Some (PDict (map (\<lambda>(k, v). (k, PStr v)) attrs))"
proof (rule xml_element_to_dict_entry)
  let ?loop = "foldl (\<lambda>child_dict child.
                        add_child child_dict (tag child) (xml_element_to_dict child)) [] cs"
  have "map_of ?loop ''@attributes'' = None"
    using children_loop_other [OF assms(2), of xml_element_to_dict "[]"] by simp
  moreover have "distinct (map fst ?loop)"
    by (rule distinct_children_loop) simp
  ultimately show "map_of (if cs \<noteq> []
                   then dict_update
                          (if attrs \<noteq> []
                           then [(''@attributes'', PDict (map (\<lambda>(k, v). (k, PStr v)) attrs))]
                           else [])
                          ?loop
                   else (if attrs \<noteq> []
                         then [(''@attributes'', PDict (map (\<lambda>(k, v). (k, PStr v)) attrs))]
                         else [])) ''@attributes''
      = Some (PDict (map (\<lambda>(k, v). (k, PStr v)) attrs))"
    using assms(1) by (simp add: map_of_dict_update map_add_def)
qed simp

lemma xml_element_to_dict_repeated:
  assumes "2 \<le> length (filter (\<lambda>c. tag c = t) cs)" and "t \<noteq> ''#text''"
  shows "\<exists>d. xml_element_to_dict (Element tg attrs txt cs) = PDict d
           \<and> map_of d t = Some (PList (map xml_element_to_dict (filter (\<lambda>c. tag c = t) cs)))"
proof (rule xml_element_to_dict_entry)
  let ?loop = "foldl (\<lambda>child_dict child.
                        add_child child_dict (tag child) (xml_element_to_dict child)) [] cs"
  from assms(1) have cs: "cs \<noteq> []"
    by auto
  have "map_of ?loop t = Some (PList (map xml_element_to_dict (filter (\<lambda>c. tag c = t) cs)))"
    by (rule children_loop_repeated) (simp_all add: xml_element_to_dict_not_list assms(1))
  moreover have "distinct (map fst ?loop)"
    by (rule distinct_children_loop) simp
  ultimately show "map_of (if cs \<noteq> []
                   then dict_update
                          (if attrs \<noteq> []
                           then [(''@attributes'', PDict (map (\<lambda>(k, v). (k, PStr v)) attrs))]
                           else [])
                          ?loop
                   else (if attrs \<noteq> []
                         then [(''@attributes'', PDict (map (\<lambda>(k, v). (k, PStr v)) attrs))]
                         else [])) t
      = Some (PList (map xml_element_to_dict (filter (\<lambda>c. tag c = t) cs)))"
    using cs by (simp add: map_of_dict_update map_add_def)
qed (rule assms(2))

lemma xml_element_to_dict_leaf:
  "xml_element_to_dict (Element tg [] txt []) =
     (case txt of
        None \<Rightarrow> PNone
      | Some s \<Rightarrow> if strip s \<noteq> [] then PStr (strip s) else PNone)"
  by (auto simp: xml_element_to_dict.simps text_content_def strip_def split: option.splits)

text \<open>
  Claim C2.  The conversion of an element: (1) with attributes, and no child named
  \<open>@attributes\<close> (a name no XML parser accepts), the result is a map that binds
  \<open>@attributes\<close> to the map of the attributes; (2) when two or more children carry the
  tag \<open>t\<close> (not \<open>#text\<close>, again no XML name), the result is a map that binds \<open>t\<close> to the
  list of their conversions in document order; (3) a leaf without attributes and
  children whose text is not blank becomes the stripped text; (4) a leaf without
  attributes and children and without text, or with blank text only, becomes \<open>PNone\<close>.
\<close>

theorem xml_element_to_dict_rules:
  "(attrs \<noteq> [] \<and> (\<forall>c \<in> set cs. tag c \<noteq> ''@attributes'') \<longrightarrow>
      (\<exists>d. xml_element_to_dict (Element tg attrs txt cs) = PDict d
          \<and> map_of d ''@attributes'' = Some (PDict (map (\<lambda>(k, v). (k, PStr v)) attrs))))
   \<and> (2 \<le> length (filter (\<lambda>c. tag c = t) cs) \<and> t \<noteq> ''#text'' \<longrightarrow>
      (\<exists>d. xml_element_to_dict (Element tg attrs txt cs) = PDict d
          \<and> map_of d t = Some (PList (map xml_element_to_dict (filter (\<lambda>c. tag c = t) cs)))))
   \<and> (strip s \<noteq> [] \<longrightarrow> xml_element_to_dict (Element tg [] (Some s) []) = PStr (strip s))
   \<and> xml_element_to_dict (Element tg [] None []) = PNone
   \<and> (strip s = [] \<longrightarrow> xml_element_to_dict (Element tg [] (Some s) []) = PNone)"
  using xml_element_to_dict_attributes [of attrs cs tg "txt"]
    xml_element_to_dict_repeated [of t cs tg attrs "txt"]
  by (simp add: xml_element_to_dict_leaf)

theorem xml_element_to_dict_rules_witness:
  "(case xml_element_to_dict
           (Element ''result'' [(''count'', ''2'')] None
              [Element ''a'' [] (Some ''1'') [], Element ''b'' [] (Some '' x '') [],
               Element ''a'' [] (Some ''2'') []]) of
      PDict d \<Rightarrow> (map_of d ''@attributes'', map_of d ''a'')
    | _ \<Rightarrow> (None, None))
     = (Some (PDict [(''count'', PStr ''2'')]), Some (PList [PStr ''1'', PStr ''2'']))
   \<and> xml_element_to_dict (Element ''b'' [] (Some '' x '') []) = PStr ''x''
   \<and> xml_element_to_dict (Element ''b'' [] (Some '' '') []) = PNone"
proof -
  let ?cs = "[Element ''a'' [] (Some ''1'') [], Element ''b'' [] (Some '' x '') [],
              Element ''a'' [] (Some ''2'') []]"
  let ?e = "Element ''result'' [(''count'', ''2'')] None ?cs"
  have kids: "map xml_element_to_dict (filter (\<lambda>c. tag c = ''a'') ?cs) = [PStr ''1'', PStr ''2'']"
    by code_simp
  have sx: "strip '' x '' = ''x''" and sb: "strip '' '' = []"
    by code_simp+
  note inst = xml_element_to_dict_rules [of "[(''count'', ''2'')]" ?cs "''result''" None "''a''"]
  from inst obtain d where d: "xml_element_to_dict ?e = PDict d"
      "map_of d ''@attributes'' = Some (PDict [(''count'', PStr ''2'')])"
    by auto
  from inst obtain d' where d': "xml_element_to_dict ?e = PDict d'"
      "map_of d' ''a'' = Some (PList (map xml_element_to_dict (filter (\<lambda>c. tag c = ''a'') ?cs)))"
    by auto
  from d d' kids have first: "(case xml_element_to_dict ?e of
        PDict d \<Rightarrow> (map_of d ''@attributes'', map_of d ''a'')
      | _ \<Rightarrow> (None, None))
     = (Some (PDict [(''count'', PStr ''2'')]), Some (PList [PStr ''1'', PStr ''2'']))"
    by simp
  have "xml_element_to_dict (Element ''b'' [] (Some '' x '') []) = PStr ''x''"
    using sx xml_element_to_dict_rules [where s = "'' x ''" and tg = "''b''"] by simp
  moreover have "xml_element_to_dict (Element ''b'' [] (Some '' '') []) = PNone"
    using sb xml_element_to_dict_rules [where s = "'' ''" and tg = "''b''"] by simp
  ultimately show ?thesis using first by simp
qed

text \<open>
  The envelope with \<open>status="success"\<close> and two \<open>a\<close> children under \<open>result\<close>: \<open>data\<close> binds
  \<open>a\<close> to the list of both texts, in document order.
\<close>

lemma parse_xml_response_repeated_children:
  "fromstring x = Inr (Element ''response'' [(''status'', ''success'')] None
      [Element ''result'' [] None
         [Element ''a'' [] (Some ''1'') [], Element ''a'' [] (Some ''2'') []]]) \<Longrightarrow>
   parse_xml_response fromstring x =
     Inr \<lparr> status = ''success'', code = None, success = True,
            data = PDict [(''a'', PList [PStr ''1'', PStr ''2''])], message = None \<rparr>"
proof -
  let ?result = "Element ''result'' [] None
         [Element ''a'' [] (Some ''1'') [], Element ''a'' [] (Some ''2'') []]"
  let ?root = "Element ''response'' [(''status'', ''success'')] None [?result]"
  assume parsed: "fromstring x = Inr ?root"
  have "xml_element_to_dict ?result = PDict [(''a'', PList [PStr ''1'', PStr ''2''])]"
    by code_simp
  moreover have "find_first ?root ''result'' = Some ?result"
    by code_simp
  moreover have "extract_message ?root = None"
    by code_simp
  ultimately show ?thesis
    using parsed by (simp add: parse_xml_response_def)
qed

text \<open>
  Claim C8.  With the XML parser as parameter, text that is not well-formed is text on
  which the parser raises.  \<open>parse_xml_response\<close> raises exactly then, and what it raises
  is the \<open>XML_PARSE_ERROR\<close> exception with the first 500 characters of the input at
  most; on any other text it returns a response whose \<open>success\<close> is the truth value of
  \<open>status = ''success''\<close>, \<open>status\<close> being the root's attribute of that name as it
  stands, or \<open>unknown\<close>.
\<close>

theorem parse_xml_response_error_iff:
  "((\<exists>err. parse_xml_response fromstring x = Inl err) \<longleftrightarrow> (\<exists>e. fromstring x = Inl e))
   \<and> (\<forall>err. parse_xml_response fromstring x = Inl err \<longrightarrow>
          (\<exists>msg snippet. err = XmlParseError msg snippet \<and> snippet = take 500 x
             \<and> length snippet \<le> 500))
   \<and> (\<forall>root. fromstring x = Inr root \<longrightarrow>
          (\<exists>r. parse_xml_response fromstring x = Inr r
             \<and> status r = (case map_of (attrib root) ''status'' of
                             Some v \<Rightarrow> v | None \<Rightarrow> ''unknown'')
             \<and> success r = (status r = ''success'')))"
  by (cases "fromstring x") (simp_all add: parse_xml_response_def Let_def)

theorem parse_xml_response_error_iff_witness:
  "(let q = [CHR 0x22];
        good = ''<response status='' @ q @ ''success'' @ q @ ''/>'';
        cased = ''<response status='' @ q @ ''Success'' @ q @ ''/>'';
        fromstring = (\<lambda>s. if s = good
                           then Inr (Element ''response'' [(''status'', ''success'')] None [])
                           else if s = cased
                           then Inr (Element ''response'' [(''status'', ''Success'')] None [])
                           else Inl ''syntax error'')
    in parse_xml_response fromstring ''<response''
         = Inl (XmlParseError ''Failed to parse XML response: syntax error'' ''<response'')
       \<and> map_sum id success (parse_xml_response fromstring good) = Inr True
       \<and> map_sum id success (parse_xml_response fromstring cased) = Inr False)"
proof -
  let ?good = "''<response status='' @ [CHR 0x22] @ ''success'' @ [CHR 0x22] @ ''/>''"
  let ?cased = "''<response status='' @ [CHR 0x22] @ ''Success'' @ [CHR 0x22] @ ''/>''"
  let ?fromstring = "\<lambda>s. if s = ?good
           then Inr (Element ''response'' [(''status'', ''success'')] None [])
           else if s = ?cased
           then Inr (Element ''response'' [(''status'', ''Success'')] None [])
           else Inl ''syntax error''"
  note inst = parse_xml_response_error_iff [where fromstring = ?fromstring]
  have "\<exists>err. parse_xml_response ?fromstring ''<response'' = Inl err"
    using inst [of "''<response''"] by simp
  then obtain err where err: "parse_xml_response ?fromstring ''<response'' = Inl err" ..
  with inst [of "''<response''"] obtain msg where "err = XmlParseError msg ''<response''"
    by auto
  with err have "parse_xml_response ?fromstring ''<response''
      = Inl (XmlParseError ''Failed to parse XML response: syntax error'' ''<response'')"
    by (simp add: parse_xml_response_def)
  moreover from inst [of ?good]
  have "map_sum id success (parse_xml_response ?fromstring ?good) = Inr True"
    by auto
  moreover from inst [of ?cased]
  have "map_sum id success (parse_xml_response ?fromstring ?cased) = Inr False"
    by auto
  ultimately show ?thesis
    unfolding Let_def by blast
qed

section \<open>Properties of the HA extraction\<close>

lemma extract_ha_info_maps:
  assumes "data r = PDict d"
    and "dict_get d ''group'' (PDict []) = PDict g"
    and "dict_get g ''local-info'' (PDict []) = PDict li"
    and "dict_get g ''peer-info'' (PDict []) = PDict pi"
  shows "extract_ha_info r =
     Inr \<lparr> ha_enabled = (g \<noteq> []),
            ha_mode = dict_get li ''mode'' (PStr ''standalone''),
            ha_state = dict_get li ''state'' (PStr ''unknown''),
            ha_peer_state = dict_get pi ''state'' (PStr ''unknown''),
            ha_running_sync = dict_get li ''running-sync'' (PStr ''unknown''),
            ha_running_sync_enabled = dict_get li ''running-sync-enabled'' (PStr ''no''),
            ha_preemptive = dict_get li ''preemptive'' (PStr ''no''),
            ha_priority = dict_get li ''priority'' (PStr ''0''),
            ha_peer_address = dict_get pi ''mgmt-ip'' (PStr []),
            ha_raw = data r \<rparr>"
  using assms by (simp add: extract_ha_info_def bind_err_def)

text \<open>
  Claim C7, as the code has it.  On a response whose \<open>data\<close> is a map, and in which
  \<open>group\<close>, \<open>local-info\<close> and \<open>peer-info\<close> are maps wherever they are present, the
  extraction returns a snapshot: \<open>enabled\<close> says that \<open>group\<close> is present and not empty,
  and every field is the entry of its path or else its fallback, which is
  \<open>standalone\<close> for \<open>mode\<close>, \<open>unknown\<close> for \<open>state\<close>, \<open>peer_state\<close> and \<open>running_sync\<close>,
  \<open>no\<close> for \<open>running_sync_enabled\<close> and \<open>preemptive\<close>, \<open>0\<close> for \<open>priority\<close> and the
  empty string for \<open>peer_address\<close>.  A map without \<open>group\<close> gives the snapshot made of
  the fallbacks alone.
\<close>

theorem extract_ha_info_fallbacks:
  "(data r = PDict d \<and> dict_get d ''group'' (PDict []) = PDict g
      \<and> dict_get g ''local-info'' (PDict []) = PDict li
      \<and> dict_get g ''peer-info'' (PDict []) = PDict pi \<longrightarrow>
      extract_ha_info r =
        Inr \<lparr> ha_enabled = (g \<noteq> []),
               ha_mode = dict_get li ''mode'' (PStr ''standalone''),
               ha_state = dict_get li ''state'' (PStr ''unknown''),
               ha_peer_state = dict_get pi ''state'' (PStr ''unknown''),
               ha_running_sync = dict_get li ''running-sync'' (PStr ''unknown''),
               ha_running_sync_enabled = dict_get li ''running-sync-enabled'' (PStr ''no''),
               ha_preemptive = dict_get li ''preemptive'' (PStr ''no''),
               ha_priority = dict_get li ''priority'' (PStr ''0''),
               ha_peer_address = dict_get pi ''mgmt-ip'' (PStr []),
               ha_raw = data r \<rparr>
      \<and> ((g \<noteq> []) = (map_of d ''group'' = Some (PDict g) \<and> g \<noteq> [])))
   \<and> (data r = PDict d \<and> map_of d ''group'' = None \<longrightarrow>
      extract_ha_info r =
        Inr \<lparr> ha_enabled = False,
               ha_mode = PStr ''standalone'',
               ha_state = PStr ''unknown'',
               ha_peer_state = PStr ''unknown'',
               ha_running_sync = PStr ''unknown'',
               ha_running_sync_enabled = PStr ''no'',
               ha_preemptive = PStr ''no'',
               ha_priority = PStr ''0'',
               ha_peer_address = PStr [],
               ha_raw = data r \<rparr>)"
proof -
  have "extract_ha_info r =
        Inr \<lparr> ha_enabled = False,
               ha_mode = PStr ''standalone'',
               ha_state = PStr ''unknown'',
               ha_peer_state = PStr ''unknown'',
               ha_running_sync = PStr ''unknown'',
               ha_running_sync_enabled = PStr ''no'',
               ha_preemptive = PStr ''no'',
               ha_priority = PStr ''0'',
               ha_peer_address = PStr [],
               ha_raw = data r \<rparr>"
    if "data r = PDict d" and "map_of d ''group'' = None"
    using that extract_ha_info_maps [of r d "[]" "[]" "[]"]
    by (simp add: dict_get_def)
  moreover have "(g \<noteq> []) = (map_of d ''group'' = Some (PDict g) \<and> g \<noteq> [])"
    if "dict_get d ''group'' (PDict []) = PDict g"
    using that by (auto simp: dict_get_def split: option.splits)
  ultimately show ?thesis
    using extract_ha_info_maps [of r d g li pi] by blast
qed

theorem extract_ha_info_fallbacks_witness:
  "extract_ha_info \<lparr>status = ''success'', code = None, success = True,
      data = PDict [(''group'',
               PDict [(''local-info'', PDict [(''state'', PStr ''active''),
                                              (''preemptive'', PStr ''yes'')]),
                      (''peer-info'', PDict [(''state'', PStr ''passive'')])])],
      message = None\<rparr>
     = Inr \<lparr> ha_enabled = True,
            ha_mode = PStr ''standalone'',
            ha_state = PStr ''active'',
            ha_peer_state = PStr ''passive'',
            ha_running_sync = PStr ''unknown'',
            ha_running_sync_enabled = PStr ''no'',
            ha_preemptive = PStr ''yes'',
            ha_priority = PStr ''0'',
            ha_peer_address = PStr [],
            ha_raw = PDict [(''group'',
               PDict [(''local-info'', PDict [(''state'', PStr ''active''),
                                              (''preemptive'', PStr ''yes'')]),
                      (''peer-info'', PDict [(''state'', PStr ''passive'')])])] \<rparr>
   \<and> extract_ha_info \<lparr>status = ''success'', code = None, success = True,
      data = PDict [(''enabled'', PStr ''no'')], message = None\<rparr>
     = Inr \<lparr> ha_enabled = False,
            ha_mode = PStr ''standalone'',
            ha_state = PStr ''unknown'',
            ha_peer_state = PStr ''unknown'',
            ha_running_sync = PStr ''unknown'',
            ha_running_sync_enabled = PStr ''no'',
            ha_preemptive = PStr ''no'',
            ha_priority = PStr ''0'',
            ha_peer_address = PStr [],
            ha_raw = PDict [(''enabled'', PStr ''no'')] \<rparr>"
proof -
  let ?li = "[(''state'', PStr ''active''), (''preemptive'', PStr ''yes'')]"
  let ?pi = "[(''state'', PStr ''passive'')]"
  let ?g = "[(''local-info'', PDict ?li), (''peer-info'', PDict ?pi)]"
  let ?d = "[(''group'', PDict ?g)]"
  let ?r = "\<lparr>status = ''success'', code = None, success = True, data = PDict ?d,
             message = None\<rparr>"
  let ?dn = "[(''enabled'', PStr ''no'')]"
  let ?rn = "\<lparr>status = ''success'', code = None, success = True, data = PDict ?dn,
              message = None\<rparr>"
  have "extract_ha_info ?r = Inr \<lparr> ha_enabled = True,
            ha_mode = PStr ''standalone'',
            ha_state = PStr ''active'',
            ha_peer_state = PStr ''passive'',
            ha_running_sync = PStr ''unknown'',
            ha_running_sync_enabled = PStr ''no'',
            ha_preemptive = PStr ''yes'',
            ha_priority = PStr ''0'',
            ha_peer_address = PStr [],
            ha_raw = PDict ?d \<rparr>"
    using extract_ha_info_fallbacks [of ?r ?d ?g ?li ?pi]
    by (simp add: dict_get_def)
  moreover have "extract_ha_info ?rn = Inr \<lparr> ha_enabled = False,
            ha_mode = PStr ''standalone'',
            ha_state = PStr ''unknown'',
            ha_peer_state = PStr ''unknown'',
            ha_running_sync = PStr ''unknown'',
            ha_running_sync_enabled = PStr ''no'',
            ha_preemptive = PStr ''no'',
            ha_priority = PStr ''0'',
            ha_peer_address = PStr [],
            ha_raw = PDict ?dn \<rparr>"
    using extract_ha_info_fallbacks [of ?rn ?dn]
    by simp
  ultimately show ?thesis by simp
qed

text \<open>
  The claim as the specification states it fails twice: an empty \<open><result/>\<close> is
  normalized to \<open>data = None\<close>, on which the extraction raises \<open>AttributeError\<close>; and on
  a response without HA data \<open>running_sync\<close> falls back to \<open>unknown\<close>, not to \<open>no\<close>.
\<close>

theorem extract_ha_info_counterexample:
  "extract_ha_info \<lparr>status = ''success'', code = None, success = True, data = PNone,
      message = None\<rparr> = Inl AttributeError
   \<and> map_sum id ha_running_sync
        (extract_ha_info \<lparr>status = ''success'', code = None, success = True, data = PDict [],
           message = None\<rparr>) = Inr (PStr ''unknown'')
   \<and> PStr ''unknown'' \<noteq> PStr ''no''"
  by (simp add: extract_ha_info_def bind_err_def dict_get_def)

section \<open>Properties of the job poller\<close>

lemma wait_loop_timeout:
  "timeout < clock (Suc k) - start_time \<Longrightarrow>
   wait_loop clock get_job_status job_id timeout poll_interval start_time k
     = Some (Inl (JobTimeout job_id (clock (Suc k) - start_time)))"
  by (subst wait_loop.simps) simp

lemma wait_loop_fin:
  "\<not> timeout < clock (Suc k) - start_time \<Longrightarrow> get_job_status k = Inr resp \<Longrightarrow>
   job_fields resp = Inr (st, PStr ''FIN'', res, progress) \<Longrightarrow>
   wait_loop clock get_job_status job_id timeout poll_interval start_time k
     = Some (Inr \<lparr> job_success = (res = PStr ''OK''), job_result = res, job_details = st,
                     job_elapsed = clock (Suc k) - start_time \<rparr>)"
  by (subst wait_loop.simps) simp

lemma wait_loop_pending:
  "\<not> timeout < clock (Suc k) - start_time \<Longrightarrow> get_job_status k = Inr resp \<Longrightarrow>
   job_fields resp = Inr (st, job_status, res, progress) \<Longrightarrow> job_status \<noteq> PStr ''FIN'' \<Longrightarrow>
   \<not> poll_interval < 0 \<Longrightarrow>
   wait_loop clock get_job_status job_id timeout poll_interval start_time k
     = wait_loop clock get_job_status job_id timeout poll_interval start_time (Suc k)"
  by (subst wait_loop.simps) simp

text \<open>
  \<open>n\<close> iterations that stay within the timeout and poll a job that has not finished
  bring the loop to iteration \<open>n\<close>.
\<close>

lemma wait_loop_skip:
  assumes "\<not> poll_interval < 0"
    and "\<forall>j<n. \<not> timeout < clock (Suc j) - start_time
           \<and> (\<exists>resp st job_status res progress.
                 get_job_status j = Inr resp
                 \<and> job_fields resp = Inr (st, job_status, res, progress)
                 \<and> job_status \<noteq> PStr ''FIN'')"
  shows "wait_loop clock get_job_status job_id timeout poll_interval start_time 0
     = wait_loop clock get_job_status job_id timeout poll_interval start_time n"
  using assms(2)
proof (induction n)
  case 0
  show ?case by simp
next
  case (Suc n)
  then have "wait_loop clock get_job_status job_id timeout poll_interval start_time 0
      = wait_loop clock get_job_status job_id timeout poll_interval start_time n"
    by simp
  moreover from Suc.prems obtain resp st job_status res progress
    where "\<not> timeout < clock (Suc n) - start_time" and "get_job_status n = Inr resp"
      and "job_fields resp = Inr (st, job_status, res, progress)"
      and "job_status \<noteq> PStr ''FIN''"
    by blast
  then have "wait_loop clock get_job_status job_id timeout poll_interval start_time n
      = wait_loop clock get_job_status job_id timeout poll_interval start_time (Suc n)"
    using assms(1) by (rule wait_loop_pending)
  ultimately show ?case by simp
qed

text \<open>
  Claim C3.  At the top of iteration \<open>k\<close> the loop raises \<open>JOB_TIMEOUT\<close> with the job id
  and the elapsed time when the elapsed time is above the timeout; otherwise, when the
  job polled there has status \<open>FIN\<close>, it returns the outcome whose \<open>success\<close> says that
  the job's result is \<open>OK\<close>.  For a whole call: after \<open>n\<close> polls within the timeout of
  a job that has not finished, the call raises \<open>JOB_TIMEOUT\<close> if the next reading of the
  clock is above the timeout, and returns the outcome if the next poll finds \<open>FIN\<close>.
  In each case the call does return.
\<close>

theorem wait_for_job_outcomes:
  "(timeout < clock (Suc k) - start_time \<longrightarrow>
      wait_loop clock get_job_status job_id timeout poll_interval start_time k
        = Some (Inl (JobTimeout job_id (clock (Suc k) - start_time))))
   \<and> (\<not> timeout < clock (Suc k) - start_time \<and> get_job_status k = Inr resp
        \<and> job_fields resp = Inr (st, PStr ''FIN'', res, progress) \<longrightarrow>
      wait_loop clock get_job_status job_id timeout poll_interval start_time k
        = Some (Inr \<lparr> job_success = (res = PStr ''OK''), job_result = res, job_details = st,
                        job_elapsed = clock (Suc k) - start_time \<rparr>))
   \<and> (\<not> poll_interval < 0
        \<and> (\<forall>j<n. \<not> timeout < clock (Suc j) - clock 0
              \<and> (\<exists>resp st job_status res progress.
                    get_job_status j = Inr resp
                    \<and> job_fields resp = Inr (st, job_status, res, progress)
                    \<and> job_status \<noteq> PStr ''FIN'')) \<longrightarrow>
      (timeout < clock (Suc n) - clock 0 \<longrightarrow>
         wait_for_job clock get_job_status job_id timeout poll_interval
           = Some (Inl (JobTimeout job_id (clock (Suc n) - clock 0))))
      \<and> (\<not> timeout < clock (Suc n) - clock 0 \<and> get_job_status n = Inr resp
           \<and> job_fields resp = Inr (st, PStr ''FIN'', res, progress) \<longrightarrow>
         wait_for_job clock get_job_status job_id timeout poll_interval
           = Some (Inr \<lparr> job_success = (res = PStr ''OK''), job_result = res,
                           job_details = st, job_elapsed = clock (Suc n) - clock 0 \<rparr>)))"
proof -
  have "wait_for_job clock get_job_status job_id timeout poll_interval
      = wait_loop clock get_job_status job_id timeout poll_interval (clock 0) n"
    if "\<not> poll_interval < 0"
      and "\<forall>j<n. \<not> timeout < clock (Suc j) - clock 0
              \<and> (\<exists>resp st job_status res progress.
                    get_job_status j = Inr resp
                    \<and> job_fields resp = Inr (st, job_status, res, progress)
                    \<and> job_status \<noteq> PStr ''FIN'')"
    unfolding wait_for_job_def using that by (rule wait_loop_skip)
  then show ?thesis
    by (simp add: wait_loop_timeout wait_loop_fin)
qed

theorem wait_for_job_outcomes_witness:
  "wait_for_job (\<lambda>i. 30 * int i)
      (\<lambda>k. Inr \<lparr>status = ''success'', code = None, success = True,
                 data = PDict [(''job'',
                          PDict [(''status'', PStr (if k < 2 then ''PEND'' else ''FIN'')),
                                 (''result'', PStr (if k < 2 then ''PEND'' else ''OK''))])],
                 message = None\<rparr>)
      ''17'' 1800 30
     = Some (Inr \<lparr> job_success = True, job_result = PStr ''OK'',
                     job_details = PDict [(''status'', PStr ''FIN''), (''result'', PStr ''OK'')],
                     job_elapsed = 90 \<rparr>)
   \<and> wait_for_job (\<lambda>i. 30 * int i)
      (\<lambda>k. Inr \<lparr>status = ''success'', code = None, success = True,
                 data = PDict [(''job'',
                          PDict [(''status'', PStr (if k < 2 then ''PEND'' else ''FIN'')),
                                 (''result'', PStr (if k < 2 then ''PEND'' else ''OK''))])],
                 message = None\<rparr>)
      ''17'' 50 30
     = Some (Inl (JobTimeout ''17'' 60))"
proof -
  let ?clock = "\<lambda>i. 30 * int i"
  let ?job = "\<lambda>k::nat. [(''status'', PStr (if k < 2 then ''PEND'' else ''FIN'')),
                   (''result'', PStr (if k < 2 then ''PEND'' else ''OK''))]"
  let ?get = "\<lambda>k::nat. (Inr \<lparr>status = ''success'', code = None, success = True,
                 data = PDict [(''job'', PDict (?job k))], message = None\<rparr>
                 :: panos_error + response)"
  have fields: "job_fields \<lparr>status = ''success'', code = None, success = True,
                 data = PDict [(''job'', PDict (?job k))], message = None\<rparr>
      = Inr (PDict (?job k), PStr (if k < 2 then ''PEND'' else ''FIN''),
             PStr (if k < 2 then ''PEND'' else ''OK''), PStr ''0'')" for k :: nat
    by (simp add: job_fields_def bind_err_def dict_get_def)
  have pend2: "\<forall>j<2. \<not> (1800::int) < ?clock (Suc j) - ?clock 0
              \<and> (\<exists>resp st job_status res progress.
                    ?get j = Inr resp
                    \<and> job_fields resp = Inr (st, job_status, res, progress)
                    \<and> job_status \<noteq> PStr ''FIN'')"
    by (simp add: job_fields_def bind_err_def dict_get_def)
  have pend1: "\<forall>j<1. \<not> (50::int) < ?clock (Suc j) - ?clock 0
              \<and> (\<exists>resp st job_status res progress.
                    ?get j = Inr resp
                    \<and> job_fields resp = Inr (st, job_status, res, progress)
                    \<and> job_status \<noteq> PStr ''FIN'')"
    by (simp add: job_fields_def bind_err_def dict_get_def)
  have "wait_for_job ?clock ?get ''17'' 1800 30
     = Some (Inr \<lparr> job_success = True, job_result = PStr ''OK'',
                     job_details = PDict [(''status'', PStr ''FIN''), (''result'', PStr ''OK'')],
                     job_elapsed = 90 \<rparr>)"
    using pend2 fields [of 2]
      wait_for_job_outcomes [where clock = ?clock and get_job_status = ?get and n = 2
        and timeout = 1800 and poll_interval = 30 and job_id = "''17''"
        and resp = "\<lparr>status = ''success'', code = None, success = True,
                 data = PDict [(''job'', PDict (?job 2))], message = None\<rparr>"
        and st = "PDict (?job 2)" and res = "PStr ''OK''" and progress = "PStr ''0''"]
    by simp
  moreover have "wait_for_job ?clock ?get ''17'' 50 30 = Some (Inl (JobTimeout ''17'' 60))"
    using pend1
      wait_for_job_outcomes [where clock = ?clock and get_job_status = ?get and n = 1
        and timeout = 50 and poll_interval = 30 and job_id = "''17''"]
    by simp
  ultimately show ?thesis by simp
qed

end
